theory Spec2Isabelle
  imports Main
begin

section \<open>Data model\<close>

text \<open>
  The development embeds the Bind model of the key-remapping configurator: the class
  hierarchy below \<^verbatim>\<open>Bind\<close>, its lowering \<^verbatim>\<open>toLL\<close> to daemon instructions, its
  structural equality \<^verbatim>\<open>equals\<close>, and the document round trip
  \<^verbatim>\<open>toJSON\<close> / \<^verbatim>\<open>deserializeBind\<close>.

  A \<^verbatim>\<open>string\<close> is a \<open>string\<close>.
\<close>

text \<open>
  A TypeScript \<^verbatim>\<open>number\<close> (layer number, repeat count, duration in milliseconds): an
  integer value \<open>Num n\<close>, or \<open>NaN\<close>, which the constructors accept like any other
  number. \<open>strict_eq\<close> is \<^verbatim>\<open>===\<close> on two numbers: \<^verbatim>\<open>NaN === NaN\<close> is false.
\<close>

datatype number = Num int | NaN

fun strict_eq :: "number \<Rightarrow> number \<Rightarrow> bool" where
  "strict_eq (Num a) (Num b) = (a = b)"
| "strict_eq NaN y = False"
| "strict_eq x NaN = False"

text \<open>
  \<^verbatim>\<open>LLBind = LLPressKey | LLReleaseKey | LLSwapLayer | LLWait\<close>: each a tagged object with one
  \<^verbatim>\<open>value\<close> field (LowLevelProfile.ts).
\<close>

datatype llbind =
    LLPressKey string
  | LLReleaseKey string
  | LLSwapLayer number
  | LLWait number

text \<open>
  The subclasses of the abstract class \<^verbatim>\<open>Bind\<close>, one constructor per class, with the
  constructor's parameters in the source's order. The class \<^verbatim>\<open>Trigger\<close> is imported by the
  source from a module that is not part of the files at hand, so the type of triggers is the
  parameter \<open>'t\<close>.
\<close>

datatype 't bind =
    PressKey string
  | ReleaseKey string
  | TapKey string
  | Macro "'t bind list"
  | TimedMacro "'t bind list" "number list"
  | Repeat "'t bind" number number 't
  | SwapLayer number
  | AppOpen_Bind string

text \<open>
  JavaScript values as far as documents need them: what \<^verbatim>\<open>toJSON\<close> builds and what
  \<^verbatim>\<open>deserializeBind\<close>, declared on \<^verbatim>\<open>any\<close>, can be handed as data: \<^verbatim>\<open>undefined\<close>,
  \<^verbatim>\<open>null\<close>, booleans, numbers, strings, arrays, and plain objects. An object is the list
  of its own properties, each holding a value of this type; reading a property that an
  object does not have gives \<open>JUndefined\<close>.
\<close>

datatype json =
    JUndefined
  | JNull
  | JBool bool
  | JNum number
  | JStr string
  | JArr "json list"
  | JObj "(string \<times> json) list"

text \<open>
  What a call can throw. \<open>Unimplemented\<close> is \<^verbatim>\<open>new Error('Method not implemented.')\<close>;
  \<open>UnknownVariant s\<close> is the error of the \<^verbatim>\<open>default\<close> branch of \<^verbatim>\<open>deserializeBind\<close>,
  \<^verbatim>\<open>new Error(`Unknown Bind type: ${obj.type}`)\<close>, where \<open>s\<close> is the string that the template
  literal makes of \<^verbatim>\<open>obj.type\<close>, so that two errors with the same message are the same
  error; \<open>TypeError\<close> is the JavaScript TypeError of reading a property of \<^verbatim>\<open>undefined\<close>
  or \<^verbatim>\<open>null\<close>, of calling a method that the receiver does not have, and of converting to a
  string an object that has no callable \<^verbatim>\<open>toString\<close>; \<open>TriggerError\<close> is whatever
  \<^verbatim>\<open>deserializeTrigger\<close> throws, a function of the module that is not at hand.
\<close>

datatype error =
    Unimplemented
  | UnknownVariant string
  | TypeError
  | TriggerError

text \<open>
  The string values of the enum \<^verbatim>\<open>BindType\<close>, in the order of its declaration, and the
  field \<^verbatim>\<open>bind_type\<close> that each constructor sets through \<^verbatim>\<open>super\<close>.
\<close>


abbreviation BindType_PressKey :: string where "BindType_PressKey \<equiv> ''press_key''"
abbreviation BindType_ReleaseKey :: string where "BindType_ReleaseKey \<equiv> ''release_key''"
abbreviation BindType_TapKey :: string where "BindType_TapKey \<equiv> ''tap_key''"
abbreviation BindType_SwitchLayer :: string where "BindType_SwitchLayer \<equiv> ''switch_layer''"
abbreviation BindType_Macro :: string where "BindType_Macro \<equiv> ''macro''"
abbreviation BindType_TimedMacro :: string where "BindType_TimedMacro \<equiv> ''timed_macro_bind''"
abbreviation BindType_Repeat :: string where "BindType_Repeat \<equiv> ''repeat_bind''"
abbreviation BindType_AppOpen :: string where "BindType_AppOpen \<equiv> ''app_open_bind''"

definition BindType_values :: "string list" where
  "BindType_values =
     [BindType_PressKey, BindType_ReleaseKey, BindType_TapKey, BindType_SwitchLayer,
      BindType_Macro, BindType_TimedMacro, BindType_Repeat, BindType_AppOpen]"

fun bind_type :: "'t bind \<Rightarrow> string" where
  "bind_type (PressKey v) = BindType_PressKey"
| "bind_type (ReleaseKey v) = BindType_ReleaseKey"
| "bind_type (TapKey v) = BindType_TapKey"
| "bind_type (Macro bs) = BindType_Macro"
| "bind_type (TimedMacro bs ts) = BindType_TimedMacro"
| "bind_type (Repeat b d n c) = BindType_Repeat"
| "bind_type (SwapLayer n) = BindType_SwitchLayer"
| "bind_type (AppOpen_Bind a) = BindType_AppOpen"

section \<open>Lowering to daemon instructions\<close>

text \<open>
  \<^verbatim>\<open>toLL\<close>, one equation per class.

  \<^item> \<open>toLL_map\<close> is \<^verbatim>\<open>this.binds.map((b) => b.toLL())\<close> of \<^verbatim>\<open>Macro.toLL\<close>: the children are
    lowered from left to right and the first exception leaves the call; \<^verbatim>\<open>.flat()\<close> is
    \<open>concat\<close>.
  \<^item> \<open>timed_loop\<close> is the \<^verbatim>\<open>for\<close> loop of \<^verbatim>\<open>TimedMacro.toLL\<close>. Its state is the counter
    \<open>i\<close> and the local array \<^verbatim>\<open>binds\<close> (the argument \<open>acc\<close>), which the method declares
    empty and which is not the field \<^verbatim>\<open>this.binds\<close>: the condition \<^verbatim>\<open>i < binds.length\<close> reads the local
    array, the body reads \<^verbatim>\<open>this.binds[i]\<close> and \<^verbatim>\<open>this.times[i]\<close>. The second argument is
    the part of \<^verbatim>\<open>this.binds\<close> from index \<open>i\<close> on, so that \<^verbatim>\<open>this.binds[i]\<close> is its head,
    and \<^verbatim>\<open>undefined\<close> (whose \<^verbatim>\<open>toLL\<close> call is a TypeError) when it is empty.
\<close>

fun toLL :: "'t bind \<Rightarrow> error + llbind list"
  and toLL_map :: "'t bind list \<Rightarrow> error + llbind list list"
  and timed_loop :: "nat \<Rightarrow> 't bind list \<Rightarrow> number list \<Rightarrow> llbind list \<Rightarrow> error + llbind list"
where
  "toLL (PressKey v) = Inr [LLPressKey v]"
| "toLL (ReleaseKey v) = Inr [LLReleaseKey v]"
| "toLL (TapKey v) = Inr [LLPressKey v, LLReleaseKey v]"
| "toLL (Macro bs) = (case toLL_map bs of Inl e \<Rightarrow> Inl e | Inr xss \<Rightarrow> Inr (concat xss))"
| "toLL (TimedMacro bs ts) = timed_loop 0 bs ts []"
| "toLL (Repeat b d n c) = Inl Unimplemented"
| "toLL (SwapLayer n) = Inr [LLSwapLayer n]"
| "toLL (AppOpen_Bind a) = Inl Unimplemented"
| "toLL_map [] = Inr []"
| "toLL_map (b # bs) =
     (case toLL b of
        Inl e \<Rightarrow> Inl e
      | Inr xs \<Rightarrow> (case toLL_map bs of Inl e \<Rightarrow> Inl e | Inr xss \<Rightarrow> Inr (xs # xss)))"
| "timed_loop i rest ts acc =
     (if i < length acc then
        (case rest of
           [] \<Rightarrow> Inl TypeError
         | b # rest' \<Rightarrow>
             (case toLL b of
                Inl e \<Rightarrow> Inl e
              | Inr xs \<Rightarrow>
                  timed_loop (i + 1) rest' ts
                    (if i < length ts then acc @ xs @ [LLWait (ts ! i)] else acc @ xs)))
      else Inr acc)"

section \<open>Structural equality\<close>

text \<open>
  \<^verbatim>\<open>equals\<close>, one equation per class; the case on \<open>other\<close> is the \<^verbatim>\<open>instanceof\<close> test.
  \<open>te\<close> is \<^verbatim>\<open>Trigger.equals\<close>, which \<^verbatim>\<open>Repeat.equals\<close> calls on the two cancel triggers.

  \<^item> \<open>every_equals\<close> is \<^verbatim>\<open>this.binds.every((b, i) => b.equals(other.binds[i]))\<close>: where
    \<^verbatim>\<open>other.binds\<close> has no element \<open>i\<close> the argument is \<^verbatim>\<open>undefined\<close>, which is an
    instance of no class, so the callback gives \<^verbatim>\<open>false\<close>.
  \<^item> \<open>every_strict\<close> is \<^verbatim>\<open>this.times.every((t, i) => t === other.times[i])\<close>; a number is
    not \<^verbatim>\<open>===\<close> to \<^verbatim>\<open>undefined\<close>.
  \<^item> A string field is compared by \<^verbatim>\<open>===\<close> on strings, which is equality; a number field
    by \<open>strict_eq\<close>.
\<close>

fun every_strict :: "number list \<Rightarrow> number list \<Rightarrow> bool" where
  "every_strict [] us = True"
| "every_strict (t # ts) [] = False"
| "every_strict (t # ts) (u # us) = (strict_eq t u \<and> every_strict ts us)"

fun equals :: "('t \<Rightarrow> 't \<Rightarrow> bool) \<Rightarrow> 't bind \<Rightarrow> 't bind \<Rightarrow> bool"
  and every_equals :: "('t \<Rightarrow> 't \<Rightarrow> bool) \<Rightarrow> 't bind list \<Rightarrow> 't bind list \<Rightarrow> bool"
where
  "equals te (PressKey v) other = (case other of PressKey w \<Rightarrow> v = w | _ \<Rightarrow> False)"
| "equals te (ReleaseKey v) other = (case other of ReleaseKey w \<Rightarrow> v = w | _ \<Rightarrow> False)"
| "equals te (TapKey v) other = (case other of TapKey w \<Rightarrow> v = w | _ \<Rightarrow> False)"
| "equals te (Macro bs) other =
     (case other of
        Macro cs \<Rightarrow> length bs = length cs \<and> every_equals te bs cs
      | _ \<Rightarrow> False)"
| "equals te (TimedMacro bs ts) other =
     (case other of
        TimedMacro cs us \<Rightarrow>
          length bs = length cs \<and> length ts = length us \<and>
          every_equals te bs cs \<and> every_strict ts us
      | _ \<Rightarrow> False)"
| "equals te (Repeat b d n c) other =
     (case other of
        Repeat b' d' n' c' \<Rightarrow> equals te b b' \<and> strict_eq d d' \<and> strict_eq n n' \<and> te c c'
      | _ \<Rightarrow> False)"
| "equals te (SwapLayer n) other = (case other of SwapLayer m \<Rightarrow> strict_eq n m | _ \<Rightarrow> False)"
| "equals te (AppOpen_Bind a) other = (case other of AppOpen_Bind a' \<Rightarrow> a = a' | _ \<Rightarrow> False)"
| "every_equals te [] cs = True"
| "every_equals te (b # bs) cs =
     (case cs of [] \<Rightarrow> False | c # cs' \<Rightarrow> equals te b c \<and> every_equals te bs cs')"

text \<open>
  \<open>nan_free b\<close>: no number field of \<open>b\<close>, at any depth, holds \<open>NaN\<close>. The predicate is
  not a method of the source; the theorems on \<open>equals\<close> are stated with it.
\<close>

fun nan_free :: "'t bind \<Rightarrow> bool" where
  "nan_free (PressKey v) = True"
| "nan_free (ReleaseKey v) = True"
| "nan_free (TapKey v) = True"
| "nan_free (Macro bs) = list_all nan_free bs"
| "nan_free (TimedMacro bs ts) = (list_all nan_free bs \<and> NaN \<notin> set ts)"
| "nan_free (Repeat b d n c) = (nan_free b \<and> d \<noteq> NaN \<and> n \<noteq> NaN)"
| "nan_free (SwapLayer n) = (n \<noteq> NaN)"
| "nan_free (AppOpen_Bind a) = True"

section \<open>Documents\<close>

text \<open>
  \<^verbatim>\<open>toJSON\<close>, one equation per class. An object literal is the list of its properties in
  the order the source writes them. \<open>tj\<close> is \<^verbatim>\<open>Trigger.toJSON\<close>, which \<^verbatim>\<open>Repeat.toJSON\<close> calls
  on the cancel trigger.
\<close>

fun toJSON :: "('t \<Rightarrow> json) \<Rightarrow> 't bind \<Rightarrow> json" where
  "toJSON tj (PressKey v) = JObj [(''type'', JStr BindType_PressKey), (''value'', JStr v)]"
| "toJSON tj (ReleaseKey v) = JObj [(''type'', JStr BindType_ReleaseKey), (''value'', JStr v)]"
| "toJSON tj (TapKey v) = JObj [(''type'', JStr BindType_TapKey), (''value'', JStr v)]"
| "toJSON tj (Macro bs) =
     JObj [(''type'', JStr BindType_Macro), (''binds'', JArr (map (toJSON tj) bs))]"
| "toJSON tj (TimedMacro bs ts) =
     JObj [(''type'', JStr BindType_TimedMacro),
           (''binds'', JArr (map (toJSON tj) bs)),
           (''times'', JArr (map JNum ts))]"
| "toJSON tj (Repeat b d n c) =
     JObj [(''type'', JStr BindType_Repeat),
           (''value'', toJSON tj b),
           (''time_delay'', JNum d),
           (''times_to_execute'', JNum n),
           (''cancel_trigger'', tj c)]"
| "toJSON tj (SwapLayer n) = JObj [(''type'', JStr BindType_SwitchLayer), (''value'', JNum n)]"
| "toJSON tj (AppOpen_Bind a) = JObj [(''type'', JStr BindType_AppOpen), (''app_name'', JStr a)]"

text \<open>
  \<open>get_prop obj k\<close> is the property read \<^verbatim>\<open>obj.k\<close> for the property names the source reads
  (\<^verbatim>\<open>type\<close>, \<^verbatim>\<open>value\<close>, \<^verbatim>\<open>binds\<close>, \<^verbatim>\<open>times\<close>, \<^verbatim>\<open>time_delay\<close>, \<^verbatim>\<open>times_to_execute\<close>,
  \<^verbatim>\<open>cancel_trigger\<close>, \<^verbatim>\<open>app_name\<close>): a TypeError on \<^verbatim>\<open>undefined\<close> and \<^verbatim>\<open>null\<close>, the
  property's value on an object that has it, \<^verbatim>\<open>undefined\<close> on every other value.
\<close>

fun get_prop :: "json \<Rightarrow> string \<Rightarrow> error + json" where
  "get_prop JUndefined k = Inl TypeError"
| "get_prop JNull k = Inl TypeError"
| "get_prop (JObj fs) k = Inr (case map_of fs k of None \<Rightarrow> JUndefined | Some v \<Rightarrow> v)"
| "get_prop (JBool b) k = Inr JUndefined"
| "get_prop (JNum n) k = Inr JUndefined"
| "get_prop (JStr s) k = Inr JUndefined"
| "get_prop (JArr xs) k = Inr JUndefined"

text \<open>
  The static \<^verbatim>\<open>fromJSON\<close> methods build an object from whatever the document holds; the
  parameter types they declare are not checked when the program runs. A result is therefore
  one of three: \<open>Inl e\<close>, the call throws \<open>e\<close>; \<open>Inr (Some b)\<close>, the call returns the bind
  \<open>b\<close>; \<open>Inr None\<close>, the call returns an object one of whose fields holds a value outside
  the field's declared type (a \<^verbatim>\<open>PressKey\<close> whose \<^verbatim>\<open>value\<close> is a number, say), which is
  no value of \<open>'t bind\<close>. An exception thrown later in the same call wins over \<open>None\<close>, as
  it does in the program.
\<close>

type_synonym 'a result = "error + 'a option"

definition PressKey_fromJSON :: "json \<Rightarrow> 't bind result" where
  "PressKey_fromJSON obj =
     (case get_prop obj ''value'' of
        Inl e \<Rightarrow> Inl e
      | Inr (JStr v) \<Rightarrow> Inr (Some (PressKey v))
      | Inr _ \<Rightarrow> Inr None)"

definition ReleaseKey_fromJSON :: "json \<Rightarrow> 't bind result" where
  "ReleaseKey_fromJSON obj =
     (case get_prop obj ''value'' of
        Inl e \<Rightarrow> Inl e
      | Inr (JStr v) \<Rightarrow> Inr (Some (ReleaseKey v))
      | Inr _ \<Rightarrow> Inr None)"

definition TapKey_fromJSON :: "json \<Rightarrow> 't bind result" where
  "TapKey_fromJSON obj =
     (case get_prop obj ''value'' of
        Inl e \<Rightarrow> Inl e
      | Inr (JStr v) \<Rightarrow> Inr (Some (TapKey v))
      | Inr _ \<Rightarrow> Inr None)"

definition SwapLayer_fromJSON :: "json \<Rightarrow> 't bind result" where
  "SwapLayer_fromJSON obj =
     (case get_prop obj ''value'' of
        Inl e \<Rightarrow> Inl e
      | Inr (JNum n) \<Rightarrow> Inr (Some (SwapLayer n))
      | Inr _ \<Rightarrow> Inr None)"

definition AppOpen_Bind_fromJSON :: "json \<Rightarrow> 't bind result" where
  "AppOpen_Bind_fromJSON obj =
     (case get_prop obj ''app_name'' of
        Inl e \<Rightarrow> Inl e
      | Inr (JStr a) \<Rightarrow> Inr (Some (AppOpen_Bind a))
      | Inr _ \<Rightarrow> Inr None)"

text \<open>
  \<open>all_typed\<close> collects the children an array of results returned: a list of binds when
  every child is one. \<open>number_array\<close> reads a \<^verbatim>\<open>number[]\<close>, \<open>as_number\<close> a \<^verbatim>\<open>number\<close>.
\<close>

fun all_typed :: "'a option list \<Rightarrow> 'a list option" where
  "all_typed [] = Some []"
| "all_typed (x # xs) =
     (case x of
        None \<Rightarrow> None
      | Some y \<Rightarrow> (case all_typed xs of None \<Rightarrow> None | Some ys \<Rightarrow> Some (y # ys)))"

fun number_array :: "json \<Rightarrow> number list option" where
  "number_array (JArr []) = Some []"
| "number_array (JArr (JNum n # xs)) =
     (case number_array (JArr xs) of None \<Rightarrow> None | Some ns \<Rightarrow> Some (n # ns))"
| "number_array _ = None"

fun as_number :: "json \<Rightarrow> number option" where
  "as_number (JNum n) = Some n"
| "as_number _ = None"

text \<open>
  \<open>to_string ns v\<close> is the string that a template literal makes of the value \<open>v\<close>
  (the conversion \<^verbatim>\<open>ToString\<close>). \<open>ns\<close> is the rendering of a number, which the model leaves
  open. An array renders as \<^verbatim>\<open>join\<close> with a comma does: its elements in order, an
  \<^verbatim>\<open>undefined\<close> or \<^verbatim>\<open>null\<close> element as the empty string. A plain object renders as
  \<^verbatim>\<open>[object Object]\<close> through the \<^verbatim>\<open>toString\<close> it inherits; when it has a property
  \<^verbatim>\<open>toString\<close> of its own, which holds data and cannot be called, and \<^verbatim>\<open>valueOf\<close> gives no
  primitive value either, the conversion is a TypeError.
\<close>

fun to_string :: "(number \<Rightarrow> string) \<Rightarrow> json \<Rightarrow> error + string"
  and join_comma :: "(number \<Rightarrow> string) \<Rightarrow> json list \<Rightarrow> error + string"
where
  "to_string ns JUndefined = Inr ''undefined''"
| "to_string ns JNull = Inr ''null''"
| "to_string ns (JBool b) = Inr (if b then ''true'' else ''false'')"
| "to_string ns (JNum n) = Inr (ns n)"
| "to_string ns (JStr s) = Inr s"
| "to_string ns (JArr xs) = join_comma ns xs"
| "to_string ns (JObj fs) =
     (if map_of fs ''toString'' = None then Inr ''[object Object]'' else Inl TypeError)"
| "join_comma ns [] = Inr []"
| "join_comma ns (x # xs) =
     (case (if x = JUndefined \<or> x = JNull then Inr [] else to_string ns x) of
        Inl e \<Rightarrow> Inl e
      | Inr s \<Rightarrow>
          (case xs of
             [] \<Rightarrow> Inr s
           | y # ys \<Rightarrow>
               (case join_comma ns xs of Inl e \<Rightarrow> Inl e | Inr r \<Rightarrow> Inr (s @ '','' @ r))))"

text \<open>
  \<^verbatim>\<open>deserializeBind\<close> with the three \<^verbatim>\<open>fromJSON\<close> methods that call it back.
  \<open>dt\<close> is \<^verbatim>\<open>deserializeTrigger\<close>, which \<^verbatim>\<open>Repeat.fromJSON\<close> calls on the document's
  \<^verbatim>\<open>cancel_trigger\<close>: \<open>Some t\<close> when it returns the trigger \<open>t\<close>, \<open>None\<close> when it throws.

  \<^item> The \<^verbatim>\<open>switch\<close> compares \<^verbatim>\<open>obj.type\<close> with each tag by strict equality, in the source's
    order of cases. The \<^verbatim>\<open>default\<close> branch builds the message from \<^verbatim>\<open>obj.type\<close> and throws
    the error; when the value cannot be converted to a string, the conversion throws first.
  \<^item> \<open>deserialize_map\<close> is \<^verbatim>\<open>obj.binds.map(deserializeBind)\<close> on an array, from left to right;
    on a value that is not an array the call of \<^verbatim>\<open>map\<close> is a TypeError.
  \<^item> The arguments of a \<^verbatim>\<open>new\<close> expression are evaluated from left to right.
\<close>

function (sequential) deserializeBind :: "(number \<Rightarrow> string) \<Rightarrow> (json \<Rightarrow> 't option) \<Rightarrow> json \<Rightarrow> 't bind result"
  and Macro_fromJSON :: "(number \<Rightarrow> string) \<Rightarrow> (json \<Rightarrow> 't option) \<Rightarrow> json \<Rightarrow> 't bind result"
  and TimedMacro_fromJSON :: "(number \<Rightarrow> string) \<Rightarrow> (json \<Rightarrow> 't option) \<Rightarrow> json \<Rightarrow> 't bind result"
  and Repeat_fromJSON :: "(number \<Rightarrow> string) \<Rightarrow> (json \<Rightarrow> 't option) \<Rightarrow> json \<Rightarrow> 't bind result"
  and deserialize_map :: "(number \<Rightarrow> string) \<Rightarrow> (json \<Rightarrow> 't option) \<Rightarrow> json list \<Rightarrow> error + 't bind option list"
where
  "deserializeBind ns dt obj =
     (case get_prop obj ''type'' of
        Inl e \<Rightarrow> Inl e
      | Inr t \<Rightarrow>
          if t = JStr BindType_PressKey then PressKey_fromJSON obj
          else if t = JStr BindType_ReleaseKey then ReleaseKey_fromJSON obj
          else if t = JStr BindType_TapKey then TapKey_fromJSON obj
          else if t = JStr BindType_Macro then Macro_fromJSON ns dt obj
          else if t = JStr BindType_TimedMacro then TimedMacro_fromJSON ns dt obj
          else if t = JStr BindType_Repeat then Repeat_fromJSON ns dt obj
          else if t = JStr BindType_SwitchLayer then SwapLayer_fromJSON obj
          else if t = JStr BindType_AppOpen then AppOpen_Bind_fromJSON obj
          else (case to_string ns t of Inl e \<Rightarrow> Inl e | Inr s \<Rightarrow> Inl (UnknownVariant s)))"
| "Macro_fromJSON ns dt obj =
     (case get_prop obj ''binds'' of
        Inl e \<Rightarrow> Inl e
      | Inr (JArr xs) \<Rightarrow>
          (case deserialize_map ns dt xs of
             Inl e \<Rightarrow> Inl e
           | Inr bs \<Rightarrow> Inr (map_option Macro (all_typed bs)))
      | Inr _ \<Rightarrow> Inl TypeError)"
| "TimedMacro_fromJSON ns dt obj =
     (case get_prop obj ''binds'' of
        Inl e \<Rightarrow> Inl e
      | Inr (JArr xs) \<Rightarrow>
          (case deserialize_map ns dt xs of
             Inl e \<Rightarrow> Inl e
           | Inr bs \<Rightarrow>
               (case get_prop obj ''times'' of
                  Inl e \<Rightarrow> Inl e
                | Inr ts \<Rightarrow>
                    (case (all_typed bs, number_array ts) of
                       (Some bs', Some ts') \<Rightarrow> Inr (Some (TimedMacro bs' ts'))
                     | _ \<Rightarrow> Inr None)))
      | Inr _ \<Rightarrow> Inl TypeError)"
| "Repeat_fromJSON ns dt obj =
     (case get_prop obj ''value'' of
        Inl e \<Rightarrow> Inl e
      | Inr v \<Rightarrow>
          (case deserializeBind ns dt v of
             Inl e \<Rightarrow> Inl e
           | Inr b \<Rightarrow>
               (case get_prop obj ''time_delay'' of
                  Inl e \<Rightarrow> Inl e
                | Inr d \<Rightarrow>
                    (case get_prop obj ''times_to_execute'' of
                       Inl e \<Rightarrow> Inl e
                     | Inr n \<Rightarrow>
                         (case get_prop obj ''cancel_trigger'' of
                            Inl e \<Rightarrow> Inl e
                          | Inr c \<Rightarrow>
                              (case dt c of
                                 None \<Rightarrow> Inl TriggerError
                               | Some t \<Rightarrow>
                                   (case (b, as_number d, as_number n) of
                                      (Some b', Some d', Some n') \<Rightarrow>
                                        Inr (Some (Repeat b' d' n' t))
                                    | _ \<Rightarrow> Inr None)))))))"
| "deserialize_map ns dt [] = Inr []"
| "deserialize_map ns dt (x # xs) =
     (case deserializeBind ns dt x of
        Inl e \<Rightarrow> Inl e
      | Inr b \<Rightarrow> (case deserialize_map ns dt xs of Inl e \<Rightarrow> Inl e | Inr bs \<Rightarrow> Inr (b # bs)))"
  by pat_completeness auto

termination
proof -
  have size_map_of: "size v < Suc (size_list (size_prod (\<lambda>_. 0) size) fs)"
    if "map_of fs k = Some v" for fs :: "(string \<times> json) list" and k v
    using that by (induction fs) (auto split: if_splits)
  have get_prop_size: "size v < size obj"
    if "get_prop obj k = Inr v" and "v \<noteq> JUndefined" for obj k v
    using that by (cases obj) (auto split: option.splits dest: size_map_of)
  show ?thesis
  proof (relation "measure (\<lambda>x. case x of
        Inl (Inl (ns, dt, obj)) \<Rightarrow> (if obj = JUndefined then 0 else 2 * size obj + 2)
      | Inl (Inr (ns, dt, obj)) \<Rightarrow> 2 * size obj + 1
      | Inr (Inl (ns, dt, obj)) \<Rightarrow> 2 * size obj + 1
      | Inr (Inr (Inl (ns, dt, obj))) \<Rightarrow> 2 * size obj + 1
      | Inr (Inr (Inr (ns, dt, xs))) \<Rightarrow> 2 * size_list size xs + 2)", goal_cases)
    case 1
    show ?case by simp
  next
    case (2 ns dt obj t)
    then show ?case by (cases obj) auto
  next
    case (3 ns dt obj t)
    then show ?case by (cases obj) auto
  next
    case (4 ns dt obj t)
    then show ?case by (cases obj) auto
  next
    case (5 ns dt obj v xs)
    then show ?case by (auto dest: get_prop_size)
  next
    case (6 ns dt obj v xs)
    then show ?case by (auto dest: get_prop_size)
  next
    case (7 ns dt obj v)
    then show ?case by (auto dest: get_prop_size)
  next
    case (8 ns dt x xs)
    then show ?case by simp
  next
    case (9 ns dt x xs b)
    then show ?case by simp
  qed
qed

section \<open>Instances of the parameters\<close>

text \<open>
  An instance of the parameter \<open>ns\<close>, used where a theorem is applied to concrete
  documents: an integer in decimal, \<open>NaN\<close> as \<^verbatim>\<open>NaN\<close>.
\<close>

fun decimal :: "nat \<Rightarrow> string" where
  "decimal n =
     (if n < 10 then [''0123456789'' ! n]
      else decimal (n div 10) @ [''0123456789'' ! (n mod 10)])"

definition number_to_string :: "number \<Rightarrow> string" where
  "number_to_string x =
     (case x of
        NaN \<Rightarrow> ''NaN''
      | Num k \<Rightarrow> if k < 0 then CHR ''-'' # decimal (nat (- k)) else decimal (nat k))"


text \<open>
  Modelled from the spec: the module \<^verbatim>\<open>./Trigger\<close> (the class \<^verbatim>\<open>Trigger\<close> and the function
  \<^verbatim>\<open>deserializeTrigger\<close>), of which the files at hand hold only the import. The spec
  describes a trigger as "an input-condition descriptor (key press/release, min/max wait)
  with its own serialization" that "exposes serialize/deserialize/equals". The four kinds
  and their tagged documents follow the trigger types of LowLevelProfile.ts. The
  definitions of the sections above take the three operations as the parameters \<open>tj\<close>,
  \<open>dt\<close> and \<open>te\<close>; this instance is used where a theorem is applied to concrete triggers.
\<close>

text \<open>Modelled from the spec: the kinds of trigger, "key press/release, min/max wait".\<close>

datatype trigger =
    KeyPress string
  | KeyRelease string
  | MinimumWait number
  | MaximumWait number

text \<open>Modelled from the spec: \<^verbatim>\<open>Trigger.toJSON\<close>, the trigger's "own serialization".\<close>

fun trigger_toJSON :: "trigger \<Rightarrow> json" where
  "trigger_toJSON (KeyPress k) = JObj [(''type'', JStr ''key_press''), (''value'', JStr k)]"
| "trigger_toJSON (KeyRelease k) = JObj [(''type'', JStr ''key_release''), (''value'', JStr k)]"
| "trigger_toJSON (MinimumWait n) = JObj [(''type'', JStr ''minimum_wait''), (''value'', JNum n)]"
| "trigger_toJSON (MaximumWait n) = JObj [(''type'', JStr ''maximum_wait''), (''value'', JNum n)]"

text \<open>
  Modelled from the spec: \<^verbatim>\<open>deserializeTrigger\<close>, the inverse of the serialization; \<open>None\<close>
  where it throws.
\<close>

definition deserializeTrigger :: "json \<Rightarrow> trigger option" where
  "deserializeTrigger obj =
     (case (get_prop obj ''type'', get_prop obj ''value'') of
        (Inr (JStr t), Inr (JStr k)) \<Rightarrow>
          if t = ''key_press'' then Some (KeyPress k)
          else if t = ''key_release'' then Some (KeyRelease k)
          else None
      | (Inr (JStr t), Inr (JNum n)) \<Rightarrow>
          if t = ''minimum_wait'' then Some (MinimumWait n)
          else if t = ''maximum_wait'' then Some (MaximumWait n)
          else None
      | _ \<Rightarrow> None)"

text \<open>Modelled from the spec: \<^verbatim>\<open>Trigger.equals\<close>, equality of the two descriptors.\<close>

definition trigger_equals :: "trigger \<Rightarrow> trigger \<Rightarrow> bool" where
  "trigger_equals a b = (a = b)"

section \<open>The lowering of a timed macro as the specification words it\<close>

text \<open>
  The specification's TimedMacro case, in its words: "interleaving of each child's lowered
  instructions with a wait instruction inserted after each child except possibly the last,
  using the duration at the matching index in \<^verbatim>\<open>times\<close>; if \<^verbatim>\<open>times\<close> is shorter than
  \<^verbatim>\<open>binds\<close>, later children get no trailing wait". \<open>spec_interleave i xss ts\<close> takes the
  lowered children from index \<open>i\<close> on. It is not a translation of the source; the source's
  method is \<open>timed_loop\<close>.
\<close>

fun spec_interleave :: "nat \<Rightarrow> llbind list list \<Rightarrow> number list \<Rightarrow> llbind list" where
  "spec_interleave i [] ts = []"
| "spec_interleave i (xs # xss) ts =
     xs @ (if i < length ts then [LLWait (ts ! i)] else []) @ spec_interleave (i + 1) xss ts"

section \<open>Lowering: theorems\<close>

lemma toLL_map_all2:
  "list_all2 (\<lambda>b xs. toLL b = Inr xs) bs xss \<Longrightarrow> toLL_map bs = Inr xss"
  by (induction bs xss rule: list_all2_induct) simp_all

lemma toLL_map_append:
  "toLL_map (bs @ cs) =
     (case toLL_map bs of
        Inl e \<Rightarrow> Inl e
      | Inr xss \<Rightarrow> (case toLL_map cs of Inl e \<Rightarrow> Inl e | Inr yss \<Rightarrow> Inr (xss @ yss)))"
  by (induction bs) (auto split: sum.splits)

text \<open>
  C1. The claim: lowering a TimedMacro gives each child's instructions with a wait carrying
  \<open>times[i]\<close> after the \<open>i\<close>-th child while \<open>i < times.length\<close>; for the binds
  \<open>[TapKey A, TapKey B]\<close> and the times \<open>[100]\<close> that is press A, release A, wait 100,
  press B, release B. The theorem evaluates the source's method and the specification's
  interleaving at this input: the method returns the empty sequence, the interleaving is
  the five instructions of the claim.
\<close>

theorem timedmacro_toLL_at_spec_example:
  "toLL (TimedMacro [TapKey ''A'', TapKey ''B''] [Num 100]) = Inr [] \<and>
   spec_interleave 0 [[LLPressKey ''A'', LLReleaseKey ''A''], [LLPressKey ''B'', LLReleaseKey ''B'']]
       [Num 100] =
     [LLPressKey ''A'', LLReleaseKey ''A'', LLWait (Num 100), LLPressKey ''B'', LLReleaseKey ''B'']"
  by simp

text \<open>
  C2. For every TimedMacro, whatever its binds and times, \<open>toLL\<close> returns the empty
  instruction sequence: the loop tests the counter against the length of the local array,
  which is empty when the loop is entered, so the body never runs.
\<close>

theorem timedmacro_toLL_empty: "toLL (TimedMacro bs ts) = Inr []"
  by simp

text \<open>
  C4. When \<open>toLL\<close> succeeds on every child of \<open>bs\<close>, with results \<open>xss\<close> in order, then
  \<open>toLL (Macro bs)\<close> is the concatenation of \<open>xss\<close>, nothing in between; the empty Macro
  lowers to the empty sequence; and a Macro among the children of a Macro lowers as its own
  children written in its place would.
\<close>

theorem macro_toLL_concat:
  "(list_all2 (\<lambda>b xs. toLL b = Inr xs) bs xss \<longrightarrow> toLL (Macro bs) = Inr (concat xss)) \<and>
   toLL (Macro []) = Inr [] \<and>
   toLL (Macro (pre @ Macro inner # post)) = toLL (Macro (pre @ inner @ post))"
  by (auto simp: toLL_map_all2 toLL_map_append split: sum.splits)

theorem macro_toLL_concat_witness:
  "list_all2 (\<lambda>b xs. toLL b = Inr xs)
     [TapKey ''A'', Macro [PressKey ''B''], SwapLayer (Num 2) :: trigger bind]
     [[LLPressKey ''A'', LLReleaseKey ''A''], [LLPressKey ''B''], [LLSwapLayer (Num 2)]] \<and>
   toLL (Macro [TapKey ''A'', Macro [PressKey ''B''], SwapLayer (Num 2) :: trigger bind]) =
     Inr [LLPressKey ''A'', LLReleaseKey ''A'', LLPressKey ''B'', LLSwapLayer (Num 2)]"
proof -
  have h: "list_all2 (\<lambda>b xs. toLL b = Inr xs)
     [TapKey ''A'', Macro [PressKey ''B''], SwapLayer (Num 2) :: trigger bind]
     [[LLPressKey ''A'', LLReleaseKey ''A''], [LLPressKey ''B''], [LLSwapLayer (Num 2)]]"
    by simp
  from h macro_toLL_concat
    [of "[TapKey ''A'', Macro [PressKey ''B''], SwapLayer (Num 2) :: trigger bind]"
        "[[LLPressKey ''A'', LLReleaseKey ''A''], [LLPressKey ''B''], [LLSwapLayer (Num 2)]]"
        "[]" "[]" "[]"]
  show ?thesis by simp
qed

text \<open>
  C5. Lowering a Repeat and lowering an AppOpen bind throw the error "Method not
  implemented."; neither returns a sequence, empty or not.
\<close>

theorem repeat_appopen_toLL_unimplemented:
  "toLL (Repeat b d n c) = Inl Unimplemented \<and>
   toLL (AppOpen_Bind a) = Inl Unimplemented \<and>
   toLL (Repeat b d n c) \<noteq> Inr xs \<and>
   toLL (AppOpen_Bind a) \<noteq> Inr ys"
  by simp

text \<open>
  C8. For every key identifier \<open>k\<close>, lowering \<open>TapKey k\<close> gives the two instructions
  press \<open>k\<close>, release \<open>k\<close>, in this order and nothing else.
\<close>

theorem tapkey_toLL: "toLL (TapKey k) = Inr [LLPressKey k, LLReleaseKey k]"
  by simp

text \<open>
  C10. For every key identifier \<open>k\<close>, \<open>TapKey k\<close> and \<open>Macro [PressKey k, ReleaseKey k]\<close>
  lower to the same instruction sequence, and \<open>equals\<close> is false on the two, in either
  order of the arguments.
\<close>

theorem tapkey_macro_same_toLL_not_equals:
  "toLL (TapKey k) = toLL (Macro [PressKey k, ReleaseKey k]) \<and>
   toLL (TapKey k) = Inr [LLPressKey k, LLReleaseKey k] \<and>
   \<not> equals te (TapKey k) (Macro [PressKey k, ReleaseKey k]) \<and>
   \<not> equals te (Macro [PressKey k, ReleaseKey k]) (TapKey k)"
  by simp

section \<open>Structural equality: theorems\<close>

lemma strict_eq_iff: "strict_eq x y \<longleftrightarrow> x = y \<and> x \<noteq> NaN"
  by (cases x; cases y) simp_all

lemma every_strict_all2:
  "length ts = length us \<Longrightarrow> every_strict ts us \<longleftrightarrow> list_all2 strict_eq ts us"
  by (induction ts us rule: list_induct2) simp_all

lemma every_equals_all2:
  "(length bs = length cs \<and> every_equals te bs cs) \<longleftrightarrow> list_all2 (equals te) bs cs"
  by (induction bs arbitrary: cs) (auto simp: list_all2_Cons1 split: list.splits)

lemma equals_Macro:
  "equals te (Macro bs) (Macro cs) \<longleftrightarrow> list_all2 (equals te) bs cs"
  using every_equals_all2 [of bs cs te] by simp

lemma equals_TimedMacro:
  "equals te (TimedMacro bs ts) (TimedMacro cs us) \<longleftrightarrow>
     list_all2 (equals te) bs cs \<and> list_all2 strict_eq ts us"
proof (cases "length ts = length us")
  case True
  then show ?thesis
    using every_equals_all2 [of bs cs te] every_strict_all2 [of ts us] by auto
next
  case False
  then show ?thesis by (auto dest: list_all2_lengthD)
qed

lemma equals_bind_type: "equals te a b \<Longrightarrow> bind_type a = bind_type b"
  by (cases a; cases b; simp)

lemma all2_left_total: "list_all2 R xs ys \<Longrightarrow> x \<in> set xs \<Longrightarrow> \<exists>y. R x y"
  by (induction xs ys rule: list_all2_induct) auto

lemma all2_strict_refl: "NaN \<notin> set ts \<Longrightarrow> list_all2 strict_eq ts ts"
  by (induction ts) (auto simp: strict_eq_iff)

lemma all2_strict_no_nan: "list_all2 strict_eq ts us \<Longrightarrow> NaN \<notin> set ts"
  by (induction ts us rule: list_all2_induct) (auto simp: strict_eq_iff)

lemma equals_refl: "reflp te \<Longrightarrow> nan_free a \<Longrightarrow> equals te a a"
proof (induction a)
  case (Macro bs)
  then have "list_all2 (equals te) bs bs" by (simp add: list_all2_same list_all_iff)
  then show ?case by (simp only: equals_Macro)
next
  case (TimedMacro bs ts)
  then have "list_all2 (equals te) bs bs" by (simp add: list_all2_same list_all_iff)
  moreover from TimedMacro.prems(2) have "list_all2 strict_eq ts ts"
    by (simp add: all2_strict_refl)
  ultimately show ?case by (simp only: equals_TimedMacro)
next
  case (Repeat b d n c)
  then show ?case by (simp add: reflpD strict_eq_iff)
next
  case (SwapLayer n)
  then show ?case by (simp add: strict_eq_iff)
qed simp_all

text \<open>A bind that \<open>equals\<close> relates to any bind holds no \<open>NaN\<close>.\<close>

lemma equals_nan_free: "equals te a b \<Longrightarrow> nan_free a"
proof (induction a arbitrary: b)
  case (Macro bs)
  from Macro.prems obtain cs where b: "b = Macro cs" by (cases b) simp_all
  with Macro.prems have "list_all2 (equals te) bs cs" by (simp only: equals_Macro)
  then have "\<exists>c. equals te x c" if "x \<in> set bs" for x
    using that by (rule all2_left_total)
  then have "nan_free x" if "x \<in> set bs" for x
    using that Macro.IH by blast
  then show ?case by (simp add: list_all_iff)
next
  case (TimedMacro bs ts)
  from TimedMacro.prems obtain cs us where b: "b = TimedMacro cs us" by (cases b) simp_all
  with TimedMacro.prems have h: "list_all2 (equals te) bs cs" "list_all2 strict_eq ts us"
    by (simp_all only: equals_TimedMacro)
  from h(1) have "\<exists>c. equals te x c" if "x \<in> set bs" for x
    using that by (rule all2_left_total)
  then have "nan_free x" if "x \<in> set bs" for x
    using that TimedMacro.IH by blast
  moreover from h(2) have "NaN \<notin> set ts" by (rule all2_strict_no_nan)
  ultimately show ?case by (simp add: list_all_iff)
next
  case (Repeat a d n t)
  from Repeat.prems obtain a' d' n' t' where b: "b = Repeat a' d' n' t'" by (cases b) simp_all
  from Repeat.prems b have 1: "equals te a a'" and 2: "strict_eq d d'" and 3: "strict_eq n n'"
    by simp_all
  from 1 have "nan_free a" by (rule Repeat.IH)
  with 2 3 show ?case by (auto simp: strict_eq_iff)
next
  case (SwapLayer n)
  then show ?case by (cases b) (simp_all add: strict_eq_iff)
qed simp_all

lemma all2_sym:
  assumes "list_all2 R bs cs" and "\<And>b c. b \<in> set bs \<Longrightarrow> R b c \<Longrightarrow> R c b"
  shows "list_all2 R cs bs"
  using assms by (induction bs cs rule: list_all2_induct) auto

lemma all2_strict_sym: "list_all2 strict_eq ts us \<Longrightarrow> list_all2 strict_eq us ts"
  by (erule all2_sym) (auto simp: strict_eq_iff)

lemma equals_sym: "symp te \<Longrightarrow> equals te a b \<Longrightarrow> equals te b a"
proof (induction a arbitrary: b)
  case (Macro bs)
  from Macro.prems(2) obtain cs where b: "b = Macro cs" by (cases b) simp_all
  with Macro.prems(2) have "list_all2 (equals te) bs cs" by (simp only: equals_Macro)
  then have "list_all2 (equals te) cs bs"
    using Macro.IH [OF _ Macro.prems(1)] by (rule all2_sym)
  then show ?case unfolding b by (simp only: equals_Macro)
next
  case (TimedMacro bs ts)
  from TimedMacro.prems(2) obtain cs us where b: "b = TimedMacro cs us" by (cases b) simp_all
  with TimedMacro.prems(2) have h: "list_all2 (equals te) bs cs" "list_all2 strict_eq ts us"
    by (simp_all only: equals_TimedMacro)
  from h(1) have "list_all2 (equals te) cs bs"
    using TimedMacro.IH [OF _ TimedMacro.prems(1)] by (rule all2_sym)
  moreover from h(2) have "list_all2 strict_eq us ts" by (rule all2_strict_sym)
  ultimately show ?case unfolding b by (simp only: equals_TimedMacro)
next
  case (Repeat a d n t)
  from Repeat.prems(2) obtain a' d' n' t' where b: "b = Repeat a' d' n' t'"
    by (cases b) simp_all
  from Repeat.prems(2) b have 1: "equals te a a'" and 2: "te t t'"
    and 5: "strict_eq d d'" and 6: "strict_eq n n'" by simp_all
  from 1 have 3: "equals te a' a" by (rule Repeat.IH [OF Repeat.prems(1)])
  from Repeat.prems(1) 2 have 4: "te t' t" by (rule sympD)
  from 5 6 have "strict_eq d' d" "strict_eq n' n" by (auto simp: strict_eq_iff)
  with 3 4 show ?case unfolding b by simp
next
  case (PressKey v)
  then show ?case by (cases b) simp_all
next
  case (ReleaseKey v)
  then show ?case by (cases b) simp_all
next
  case (TapKey v)
  then show ?case by (cases b) simp_all
next
  case (SwapLayer n)
  then show ?case by (cases b) (auto simp: strict_eq_iff)
next
  case (AppOpen_Bind n)
  then show ?case by (cases b) simp_all
qed

lemma all2_trans:
  assumes "list_all2 R bs cs" and "list_all2 R cs ds"
    and "\<And>b c d. b \<in> set bs \<Longrightarrow> R b c \<Longrightarrow> R c d \<Longrightarrow> R b d"
  shows "list_all2 R bs ds"
  using assms
proof (induction bs cs arbitrary: ds rule: list_all2_induct)
  case Nil
  then show ?case by simp
next
  case (Cons b bs c cs)
  then show ?case by (cases ds) auto
qed

lemma all2_strict_trans:
  "list_all2 strict_eq ts us \<Longrightarrow> list_all2 strict_eq us vs \<Longrightarrow> list_all2 strict_eq ts vs"
  by (erule all2_trans, assumption) (auto simp: strict_eq_iff)

lemma equals_trans: "transp te \<Longrightarrow> equals te a b \<Longrightarrow> equals te b c \<Longrightarrow> equals te a c"
proof (induction a arbitrary: b c)
  case (Macro bs)
  from Macro.prems(2) obtain cs where b: "b = Macro cs" by (cases b) simp_all
  from Macro.prems(3) b obtain ds where c: "c = Macro ds" by (cases c) simp_all
  from Macro.prems(2) b have 1: "list_all2 (equals te) bs cs" by (simp only: equals_Macro)
  from Macro.prems(3) b c have 2: "list_all2 (equals te) cs ds" by (simp only: equals_Macro)
  from 1 2 have "list_all2 (equals te) bs ds"
    using Macro.IH [OF _ Macro.prems(1)] by (rule all2_trans)
  then show ?case unfolding c by (simp only: equals_Macro)
next
  case (TimedMacro bs ts)
  from TimedMacro.prems(2) obtain cs us where b: "b = TimedMacro cs us" by (cases b) simp_all
  from TimedMacro.prems(3) b obtain ds vs where c: "c = TimedMacro ds vs" by (cases c) simp_all
  from TimedMacro.prems(2) b have 1: "list_all2 (equals te) bs cs" "list_all2 strict_eq ts us"
    by (simp_all only: equals_TimedMacro)
  from TimedMacro.prems(3) b c have 2: "list_all2 (equals te) cs ds" "list_all2 strict_eq us vs"
    by (simp_all only: equals_TimedMacro)
  from 1(1) 2(1) have "list_all2 (equals te) bs ds"
    using TimedMacro.IH [OF _ TimedMacro.prems(1)] by (rule all2_trans)
  moreover from 1(2) 2(2) have "list_all2 strict_eq ts vs" by (rule all2_strict_trans)
  ultimately show ?case unfolding c by (simp only: equals_TimedMacro)
next
  case (Repeat a d n t)
  from Repeat.prems(2) obtain a' d' n' t' where b: "b = Repeat a' d' n' t'"
    by (cases b) simp_all
  from Repeat.prems(3) b obtain a'' d'' n'' t'' where c: "c = Repeat a'' d'' n'' t''"
    by (cases c) simp_all
  from Repeat.prems b c have 1: "equals te a a'" and 2: "equals te a' a''"
    and 3: "te t t'" and 4: "te t' t''"
    and 7: "strict_eq d d'" "strict_eq d' d''" "strict_eq n n'" "strict_eq n' n''"
    by simp_all
  from 1 2 have 5: "equals te a a''" by (rule Repeat.IH [OF Repeat.prems(1)])
  from Repeat.prems(1) 3 4 have 6: "te t t''" by (rule transpD)
  from 7 have "strict_eq d d''" "strict_eq n n''" by (auto simp: strict_eq_iff)
  with 5 6 show ?case unfolding c by simp
next
  case (PressKey v)
  from PressKey(2) have "b = PressKey v" by (cases b) simp_all
  with PressKey(3) show ?case by simp
next
  case (ReleaseKey v)
  from ReleaseKey(2) have "b = ReleaseKey v" by (cases b) simp_all
  with ReleaseKey(3) show ?case by simp
next
  case (TapKey v)
  from TapKey(2) have "b = TapKey v" by (cases b) simp_all
  with TapKey(3) show ?case by simp
next
  case (SwapLayer n)
  from SwapLayer(2) have "b = SwapLayer n" by (cases b) (simp_all add: strict_eq_iff)
  with SwapLayer(3) show ?case by simp
next
  case (AppOpen_Bind n)
  from AppOpen_Bind(2) have "b = AppOpen_Bind n" by (cases b) simp_all
  with AppOpen_Bind(3) show ?case by simp
qed

text \<open>
  C7, as the claim states it, at \<open>SwapLayer NaN\<close>: \<^verbatim>\<open>Trigger.equals\<close> is reflexive,
  symmetric and transitive, and \<open>equals\<close> is false between the bind and itself, because
  \<^verbatim>\<open>NaN === NaN\<close> is false.
\<close>

theorem equals_not_reflexive_counterexample:
  "reflp trigger_equals \<and> symp trigger_equals \<and> transp trigger_equals \<and>
   \<not> equals trigger_equals (SwapLayer NaN) (SwapLayer NaN)"
  by (simp add: reflp_def symp_def transp_def trigger_equals_def)

text \<open>
  C7, amended. Let \<^verbatim>\<open>Trigger.equals\<close> be reflexive, symmetric and transitive. Then \<open>equals\<close>
  is symmetric and transitive on all binds, and it holds between a bind and itself exactly
  when no number field of the bind, at any depth, is \<open>NaN\<close>. It is false on two binds
  of different classes (different \<^verbatim>\<open>bind_type\<close>); on two Macros it holds exactly when the
  two lists of children have the same length and the children are \<open>equals\<close> position by
  position, on two TimedMacros when moreover the two lists of times have the same length
  and are \<^verbatim>\<open>===\<close> position by position, on two Repeats when the children are \<open>equals\<close>,
  the delays and the counts are \<^verbatim>\<open>===\<close> and the triggers are \<^verbatim>\<open>Trigger.equals\<close>; a
  difference in the length of the binds, or of the times, makes it false.
\<close>

theorem equals_partial_equivalence:
  assumes "reflp te" and "symp te" and "transp te"
  shows "(equals te a a \<longleftrightarrow> nan_free a) \<and>
    (equals te a b \<longrightarrow> equals te b a) \<and>
    (equals te a b \<and> equals te b c \<longrightarrow> equals te a c) \<and>
    (bind_type x \<noteq> bind_type y \<longrightarrow> \<not> equals te x y) \<and>
    (equals te (Macro bs) (Macro cs) \<longleftrightarrow> list_all2 (equals te) bs cs) \<and>
    (equals te (TimedMacro bs ts) (TimedMacro cs us) \<longleftrightarrow>
       list_all2 (equals te) bs cs \<and> list_all2 strict_eq ts us) \<and>
    (equals te (Repeat p d n t) (Repeat p' d' n' t') \<longleftrightarrow>
       equals te p p' \<and> strict_eq d d' \<and> strict_eq n n' \<and> te t t') \<and>
    (length bs \<noteq> length cs \<longrightarrow> \<not> equals te (Macro bs) (Macro cs)) \<and>
    (length bs \<noteq> length cs \<or> length ts \<noteq> length us \<longrightarrow>
       \<not> equals te (TimedMacro bs ts) (TimedMacro cs us))"
proof -
  have 1: "equals te a a \<longleftrightarrow> nan_free a"
    using assms(1) by (blast intro: equals_refl equals_nan_free)
  have 2: "equals te a b \<longrightarrow> equals te b a"
    using assms(2) by (blast intro: equals_sym)
  have 3: "equals te a b \<and> equals te b c \<longrightarrow> equals te a c"
    using assms(3) by (blast intro: equals_trans)
  have 4: "bind_type x \<noteq> bind_type y \<longrightarrow> \<not> equals te x y"
    by (blast dest: equals_bind_type)
  have 5: "equals te (Macro bs) (Macro cs) \<longleftrightarrow> list_all2 (equals te) bs cs"
    by (rule equals_Macro)
  have 6: "equals te (TimedMacro bs ts) (TimedMacro cs us) \<longleftrightarrow>
       list_all2 (equals te) bs cs \<and> list_all2 strict_eq ts us"
    by (rule equals_TimedMacro)
  have 7: "equals te (Repeat p d n t) (Repeat p' d' n' t') \<longleftrightarrow>
       equals te p p' \<and> strict_eq d d' \<and> strict_eq n n' \<and> te t t'"
    by simp
  have 8: "length bs \<noteq> length cs \<longrightarrow> \<not> equals te (Macro bs) (Macro cs)"
    by simp
  have 9: "length bs \<noteq> length cs \<or> length ts \<noteq> length us \<longrightarrow>
       \<not> equals te (TimedMacro bs ts) (TimedMacro cs us)"
    by auto
  from 1 2 3 4 5 6 7 8 9 show ?thesis by blast
qed

theorem equals_partial_equivalence_witness:
  "reflp trigger_equals \<and> symp trigger_equals \<and> transp trigger_equals \<and>
   nan_free (Repeat (Macro [TapKey ''A'', SwapLayer (Num 1)]) (Num 10) (Num 3) (KeyPress ''q'')) \<and>
   equals trigger_equals
     (Repeat (Macro [TapKey ''A'', SwapLayer (Num 1)]) (Num 10) (Num 3) (KeyPress ''q''))
     (Repeat (Macro [TapKey ''A'', SwapLayer (Num 1)]) (Num 10) (Num 3) (KeyPress ''q'')) \<and>
   bind_type (TapKey ''A'' :: trigger bind) \<noteq> bind_type (PressKey ''A'' :: trigger bind) \<and>
   \<not> equals trigger_equals (TapKey ''A'') (PressKey ''A'') \<and>
   length [TapKey ''A'' :: trigger bind] \<noteq> length ([] :: trigger bind list) \<and>
   \<not> equals trigger_equals (Macro [TapKey ''A'']) (Macro []) \<and>
   \<not> equals trigger_equals (TimedMacro [TapKey ''A''] [Num 5]) (TimedMacro [] [Num 7])"
proof -
  have r: "reflp trigger_equals" and s: "symp trigger_equals" and t: "transp trigger_equals"
    by (simp_all add: reflp_def symp_def transp_def trigger_equals_def)
  from r s t equals_partial_equivalence [OF r s t, where
      a = "Repeat (Macro [TapKey ''A'', SwapLayer (Num 1)]) (Num 10) (Num 3) (KeyPress ''q'')" and
      b = "Repeat (Macro [TapKey ''A'', SwapLayer (Num 1)]) (Num 10) (Num 3) (KeyPress ''q'')" and
      c = "Repeat (Macro [TapKey ''A'', SwapLayer (Num 1)]) (Num 10) (Num 3) (KeyPress ''q'')" and
      x = "TapKey ''A''" and y = "PressKey ''A''" and
      bs = "[TapKey ''A'']" and cs = "[]" and ts = "[Num 5]" and us = "[Num 7]"]
  show ?thesis by simp
qed

section \<open>Documents: theorems\<close>

lemma all_typed_map_Some: "all_typed (map Some xs) = Some xs"
  by (induction xs) simp_all

lemma number_array_map_JNum: "number_array (JArr (map JNum ts)) = Some ts"
  by (induction ts) simp_all

lemma deserialize_map_roundtrip:
  assumes "\<And>b. b \<in> set bs \<Longrightarrow>
    \<exists>b'. deserializeBind ns dt (toJSON tj b) = Inr (Some b') \<and>
      (nan_free b \<longrightarrow> equals te b b' \<and> equals te b' b)"
  shows "\<exists>bs'. deserialize_map ns dt (map (toJSON tj) bs) = Inr (map Some bs') \<and>
    (list_all nan_free bs \<longrightarrow> list_all2 (equals te) bs bs' \<and> list_all2 (equals te) bs' bs)"
  using assms
proof (induction bs)
  case Nil
  show ?case by (simp del: deserializeBind.simps)
next
  case (Cons b bs)
  from Cons.prems obtain b' where
    b: "deserializeBind ns dt (toJSON tj b) = Inr (Some b')"
      "nan_free b \<longrightarrow> equals te b b' \<and> equals te b' b"
    by auto
  from Cons.IH Cons.prems obtain bs' where
    bs: "deserialize_map ns dt (map (toJSON tj) bs) = Inr (map Some bs')"
      "list_all nan_free bs \<longrightarrow> list_all2 (equals te) bs bs' \<and> list_all2 (equals te) bs' bs"
    by auto
  have "deserialize_map ns dt (map (toJSON tj) (b # bs)) = Inr (map Some (b' # bs'))"
    by (simp add: b(1) bs(1) del: deserializeBind.simps)
  moreover have "list_all nan_free (b # bs) \<longrightarrow>
      list_all2 (equals te) (b # bs) (b' # bs') \<and> list_all2 (equals te) (b' # bs') (b # bs)"
    using b(2) bs(2) by simp
  ultimately show ?case by blast
qed

text \<open>
  C3, as the claim states it, at \<open>TimedMacro [] [NaN]\<close>: the document deserializes to the
  same TimedMacro, and \<open>equals\<close> is false between the bind and the result, because
  \<^verbatim>\<open>NaN === NaN\<close> is false.
\<close>

theorem roundtrip_nan_counterexample:
  "deserializeBind number_to_string deserializeTrigger
     (toJSON trigger_toJSON (TimedMacro [] [NaN])) = Inr (Some (TimedMacro [] [NaN])) \<and>
   \<not> equals trigger_equals (TimedMacro [] [NaN]) (TimedMacro [] [NaN])"
  by simp

text \<open>
  C3, amended. Let \<^verbatim>\<open>deserializeTrigger\<close> return, on the document of every trigger, a
  trigger that \<^verbatim>\<open>Trigger.equals\<close> the one serialized, in either order of the two. Then for
  every bind \<open>b\<close>, of any class and any depth of nesting, \<open>deserializeBind\<close> on \<open>toJSON b\<close>
  returns a bind; when no number field of \<open>b\<close>, at any depth, is \<open>NaN\<close>, \<open>equals\<close> holds
  between \<open>b\<close> and that bind, in either order of the two; when some number field of \<open>b\<close>
  is \<open>NaN\<close>, \<open>equals\<close> is false between \<open>b\<close> and that bind.
\<close>

theorem deserializeBind_toJSON_roundtrip:
  assumes tr: "\<And>t. \<exists>t'. dt (tj t) = Some t' \<and> te t t' \<and> te t' t"
  shows "\<exists>b'. deserializeBind ns dt (toJSON tj b) = Inr (Some b') \<and>
    (nan_free b \<longrightarrow> equals te b b' \<and> equals te b' b) \<and>
    (\<not> nan_free b \<longrightarrow> \<not> equals te b b')"
proof -
  have core: "\<exists>b'. deserializeBind ns dt (toJSON tj b) = Inr (Some b') \<and>
      (nan_free b \<longrightarrow> equals te b b' \<and> equals te b' b)"
  proof (induction b)
    case (PressKey v)
    show ?case by (simp add: PressKey_fromJSON_def)
  next
    case (ReleaseKey v)
    show ?case by (simp add: ReleaseKey_fromJSON_def)
  next
    case (TapKey v)
    show ?case by (simp add: TapKey_fromJSON_def)
  next
    case (Macro bs)
    then obtain bs' where
      bs: "deserialize_map ns dt (map (toJSON tj) bs) = Inr (map Some bs')"
        "list_all nan_free bs \<longrightarrow> list_all2 (equals te) bs bs' \<and> list_all2 (equals te) bs' bs"
      using deserialize_map_roundtrip [of bs ns dt tj te] by blast
    have "deserializeBind ns dt (toJSON tj (Macro bs)) = Inr (Some (Macro bs'))"
      by (simp add: bs(1) all_typed_map_Some)
    moreover have "nan_free (Macro bs) \<longrightarrow>
        equals te (Macro bs) (Macro bs') \<and> equals te (Macro bs') (Macro bs)"
      using bs(2) by (simp add: equals_Macro del: equals.simps)
    ultimately show ?case by blast
  next
    case (TimedMacro bs ts)
    then obtain bs' where
      bs: "deserialize_map ns dt (map (toJSON tj) bs) = Inr (map Some bs')"
        "list_all nan_free bs \<longrightarrow> list_all2 (equals te) bs bs' \<and> list_all2 (equals te) bs' bs"
      using deserialize_map_roundtrip [of bs ns dt tj te] by blast
    have "deserializeBind ns dt (toJSON tj (TimedMacro bs ts)) = Inr (Some (TimedMacro bs' ts))"
      by (simp add: bs(1) all_typed_map_Some number_array_map_JNum)
    moreover have "nan_free (TimedMacro bs ts) \<longrightarrow>
        equals te (TimedMacro bs ts) (TimedMacro bs' ts) \<and>
        equals te (TimedMacro bs' ts) (TimedMacro bs ts)"
      using bs(2) by (simp add: equals_TimedMacro all2_strict_refl del: equals.simps)
    ultimately show ?case by blast
  next
    case (Repeat b d n c)
    then obtain b' where
      b: "deserializeBind ns dt (toJSON tj b) = Inr (Some b')"
        "nan_free b \<longrightarrow> equals te b b' \<and> equals te b' b"
      by blast
    from tr obtain c' where c: "dt (tj c) = Some c'" "te c c'" "te c' c"
      by blast
    have "Repeat_fromJSON ns dt (toJSON tj (Repeat b d n c)) = Inr (Some (Repeat b' d n c'))"
      by (simp add: b(1) c(1) del: deserializeBind.simps)
    then have "deserializeBind ns dt (toJSON tj (Repeat b d n c)) =
        Inr (Some (Repeat b' d n c'))"
      by (subst deserializeBind.simps) (simp del: deserializeBind.simps Repeat_fromJSON.simps)
    moreover have "nan_free (Repeat b d n c) \<longrightarrow>
        equals te (Repeat b d n c) (Repeat b' d n c') \<and>
        equals te (Repeat b' d n c') (Repeat b d n c)"
      using b(2) c(2,3) by (simp add: strict_eq_iff)
    ultimately show ?case by blast
  next
    case (SwapLayer n)
    show ?case by (simp add: SwapLayer_fromJSON_def strict_eq_iff)
  next
    case (AppOpen_Bind a)
    show ?case by (simp add: AppOpen_Bind_fromJSON_def)
  qed
  then show ?thesis by (blast dest: equals_nan_free)
qed

theorem deserializeBind_toJSON_roundtrip_witness:
  "(\<forall>t. \<exists>t'. deserializeTrigger (trigger_toJSON t) = Some t' \<and>
      trigger_equals t t' \<and> trigger_equals t' t) \<and>
   nan_free
     (Repeat (TimedMacro [TapKey ''x'', Macro [SwapLayer (Num 1), AppOpen_Bind ''term'']] [Num 5])
        (Num 1) (Num 2) (KeyPress ''q'')) \<and>
   deserializeBind number_to_string deserializeTrigger
     (toJSON trigger_toJSON
        (Repeat (TimedMacro [TapKey ''x'', Macro [SwapLayer (Num 1), AppOpen_Bind ''term'']] [Num 5])
           (Num 1) (Num 2) (KeyPress ''q''))) =
     Inr (Some
       (Repeat (TimedMacro [TapKey ''x'', Macro [SwapLayer (Num 1), AppOpen_Bind ''term'']] [Num 5])
          (Num 1) (Num 2) (KeyPress ''q''))) \<and>
   equals trigger_equals
     (Repeat (TimedMacro [TapKey ''x'', Macro [SwapLayer (Num 1), AppOpen_Bind ''term'']] [Num 5])
        (Num 1) (Num 2) (KeyPress ''q''))
     (Repeat (TimedMacro [TapKey ''x'', Macro [SwapLayer (Num 1), AppOpen_Bind ''term'']] [Num 5])
        (Num 1) (Num 2) (KeyPress ''q''))"
proof -
  have h: "\<exists>t'. deserializeTrigger (trigger_toJSON t) = Some t' \<and>
      trigger_equals t t' \<and> trigger_equals t' t" for t
    by (cases t) (simp_all add: deserializeTrigger_def trigger_equals_def)
  from h deserializeBind_toJSON_roundtrip
    [of deserializeTrigger trigger_toJSON trigger_equals number_to_string
      "Repeat (TimedMacro [TapKey ''x'', Macro [SwapLayer (Num 1), AppOpen_Bind ''term'']] [Num 5])
         (Num 1) (Num 2) (KeyPress ''q'')", OF h]
  show ?thesis
    by (simp add: deserializeTrigger_def trigger_equals_def PressKey_fromJSON_def
        TapKey_fromJSON_def SwapLayer_fromJSON_def AppOpen_Bind_fromJSON_def)
qed

text \<open>
  C6, as the claim states it, at a document whose \<^verbatim>\<open>type\<close> is the recognized tag
  \<^verbatim>\<open>macro\<close> and whose only child has the tag \<^verbatim>\<open>not_a_real_type\<close>: \<open>deserializeBind\<close>
  fails with an UnknownVariant error, thrown by the call that \<^verbatim>\<open>Macro.fromJSON\<close> makes on
  the child.
\<close>

theorem deserializeBind_unknown_child_counterexample:
  "get_prop (JObj [(''type'', JStr BindType_Macro),
                   (''binds'', JArr [JObj [(''type'', JStr ''not_a_real_type'')]])]) ''type'' =
     Inr (JStr BindType_Macro) \<and>
   JStr BindType_Macro \<in> JStr ` set BindType_values \<and>
   deserializeBind number_to_string deserializeTrigger
     (JObj [(''type'', JStr BindType_Macro),
            (''binds'', JArr [JObj [(''type'', JStr ''not_a_real_type'')]])]) =
     Inl (UnknownVariant ''not_a_real_type'')"
  by (simp add: BindType_values_def)

text \<open>
  The error that leaves a call can even name the call's own, recognized tag: the child's
  \<^verbatim>\<open>type\<close> is the array \<^verbatim>\<open>['macro']\<close>, which is no tag and renders as \<^verbatim>\<open>macro\<close>. So
  an UnknownVariant error does not tell that the type of the document handed in is unknown,
  whatever the message.
\<close>

lemma deserializeBind_child_error_names_own_tag:
  "deserializeBind ns dt
     (JObj [(''type'', JStr BindType_Macro),
            (''binds'', JArr [JObj [(''type'', JArr [JStr BindType_Macro])]])]) =
     Inl (UnknownVariant BindType_Macro)"
  by simp

text \<open>
  C6, amended. Let \<open>t\<close> be the value read from \<^verbatim>\<open>obj.type\<close> (the document is not
  \<^verbatim>\<open>undefined\<close> or \<^verbatim>\<open>null\<close>). When \<open>t\<close> is none of the eight tags, \<open>deserializeBind\<close>
  fails: with the UnknownVariant error whose message holds the string made of \<open>t\<close>, in
  particular for every string \<open>t\<close> other than the eight, and with the TypeError of the
  conversion when no string can be made of \<open>t\<close>. When \<open>t\<close> is one of the eight tags, the
  result of \<open>deserializeBind\<close> is the result of that class's \<^verbatim>\<open>fromJSON\<close> on the document,
  a failure included.
\<close>

theorem deserializeBind_dispatch:
  assumes "get_prop obj ''type'' = Inr t"
  shows "(t \<notin> JStr ` set BindType_values \<longrightarrow>
       deserializeBind ns dt obj =
         (case to_string ns t of Inl e \<Rightarrow> Inl e | Inr s \<Rightarrow> Inl (UnknownVariant s))) \<and>
    (t = JStr x \<and> x \<notin> set BindType_values \<longrightarrow>
       deserializeBind ns dt obj = Inl (UnknownVariant x)) \<and>
    (t = JStr BindType_PressKey \<longrightarrow> deserializeBind ns dt obj = PressKey_fromJSON obj) \<and>
    (t = JStr BindType_ReleaseKey \<longrightarrow> deserializeBind ns dt obj = ReleaseKey_fromJSON obj) \<and>
    (t = JStr BindType_TapKey \<longrightarrow> deserializeBind ns dt obj = TapKey_fromJSON obj) \<and>
    (t = JStr BindType_Macro \<longrightarrow> deserializeBind ns dt obj = Macro_fromJSON ns dt obj) \<and>
    (t = JStr BindType_TimedMacro \<longrightarrow>
       deserializeBind ns dt obj = TimedMacro_fromJSON ns dt obj) \<and>
    (t = JStr BindType_Repeat \<longrightarrow> deserializeBind ns dt obj = Repeat_fromJSON ns dt obj) \<and>
    (t = JStr BindType_SwitchLayer \<longrightarrow> deserializeBind ns dt obj = SwapLayer_fromJSON obj) \<and>
    (t = JStr BindType_AppOpen \<longrightarrow> deserializeBind ns dt obj = AppOpen_Bind_fromJSON obj)"
proof -
  have unknown: "deserializeBind ns dt obj =
      (case to_string ns t of Inl e \<Rightarrow> Inl e | Inr s \<Rightarrow> Inl (UnknownVariant s))"
    if "t \<notin> JStr ` set BindType_values"
    using that assms
    by (subst deserializeBind.simps)
       (simp add: BindType_values_def
         del: deserializeBind.simps Macro_fromJSON.simps TimedMacro_fromJSON.simps
           Repeat_fromJSON.simps)
  have unknown_string: "deserializeBind ns dt obj = Inl (UnknownVariant x)"
    if "t = JStr x" and "x \<notin> set BindType_values"
  proof -
    from that have "t \<notin> JStr ` set BindType_values" by auto
    from unknown [OF this] that(1) show ?thesis by simp
  qed
  have dispatch:
    "t = JStr BindType_PressKey \<longrightarrow> deserializeBind ns dt obj = PressKey_fromJSON obj"
    "t = JStr BindType_ReleaseKey \<longrightarrow> deserializeBind ns dt obj = ReleaseKey_fromJSON obj"
    "t = JStr BindType_TapKey \<longrightarrow> deserializeBind ns dt obj = TapKey_fromJSON obj"
    "t = JStr BindType_Macro \<longrightarrow> deserializeBind ns dt obj = Macro_fromJSON ns dt obj"
    "t = JStr BindType_TimedMacro \<longrightarrow> deserializeBind ns dt obj = TimedMacro_fromJSON ns dt obj"
    "t = JStr BindType_Repeat \<longrightarrow> deserializeBind ns dt obj = Repeat_fromJSON ns dt obj"
    "t = JStr BindType_SwitchLayer \<longrightarrow> deserializeBind ns dt obj = SwapLayer_fromJSON obj"
    "t = JStr BindType_AppOpen \<longrightarrow> deserializeBind ns dt obj = AppOpen_Bind_fromJSON obj"
    using assms
    by (subst deserializeBind.simps;
        simp del: deserializeBind.simps Macro_fromJSON.simps TimedMacro_fromJSON.simps
          Repeat_fromJSON.simps)+
  from unknown unknown_string dispatch show ?thesis by blast
qed

theorem deserializeBind_dispatch_witness:
  "get_prop (JObj [(''type'', JStr ''not_a_real_type'')]) ''type'' = Inr (JStr ''not_a_real_type'') \<and>
   JStr ''not_a_real_type'' \<notin> JStr ` set BindType_values \<and>
   ''not_a_real_type'' \<notin> set BindType_values \<and>
   deserializeBind number_to_string deserializeTrigger (JObj [(''type'', JStr ''not_a_real_type'')]) =
     Inl (UnknownVariant ''not_a_real_type'') \<and>
   get_prop (JObj [(''type'', JStr BindType_TapKey), (''value'', JStr ''A'')]) ''type'' =
     Inr (JStr BindType_TapKey) \<and>
   deserializeBind number_to_string deserializeTrigger
       (JObj [(''type'', JStr BindType_TapKey), (''value'', JStr ''A'')]) =
     TapKey_fromJSON (JObj [(''type'', JStr BindType_TapKey), (''value'', JStr ''A'')]) \<and>
   TapKey_fromJSON (JObj [(''type'', JStr BindType_TapKey), (''value'', JStr ''A'')]) =
     (Inr (Some (TapKey ''A'')) :: trigger bind result)"
proof -
  have 1: "get_prop (JObj [(''type'', JStr ''not_a_real_type'')]) ''type'' =
      Inr (JStr ''not_a_real_type'')"
    by simp
  have 2: "get_prop (JObj [(''type'', JStr BindType_TapKey), (''value'', JStr ''A'')]) ''type'' =
      Inr (JStr BindType_TapKey)"
    by simp
  from deserializeBind_dispatch
      [OF 1, where ns = number_to_string and dt = deserializeTrigger and x = "''not_a_real_type''"]
    deserializeBind_dispatch
      [OF 2, where ns = number_to_string and dt = deserializeTrigger and x = "''A''"]
  show ?thesis
    by (simp add: BindType_values_def TapKey_fromJSON_def)
qed

text \<open>
  C9. The document of \<open>SwapLayer n\<close> has the tag \<^verbatim>\<open>switch_layer\<close> and holds \<open>n\<close> under
  the key \<^verbatim>\<open>value\<close>; it has no key \<^verbatim>\<open>layer_number\<close>. Deserializing an object with the tag
  \<^verbatim>\<open>switch_layer\<close> and a number \<open>m\<close> under \<^verbatim>\<open>value\<close> gives \<open>SwapLayer m\<close>, whatever other
  keys the object has; a number under \<^verbatim>\<open>layer_number\<close> alone is not read back as the layer
  number. The document of \<open>AppOpen_Bind a\<close> has the tag \<^verbatim>\<open>app_open_bind\<close> and holds \<open>a\<close>
  under the key \<^verbatim>\<open>app_name\<close>.
\<close>

theorem swaplayer_value_key:
  "toJSON tj (SwapLayer n) = JObj [(''type'', JStr BindType_SwitchLayer), (''value'', JNum n)] \<and>
   get_prop (toJSON tj (SwapLayer n)) ''value'' = Inr (JNum n) \<and>
   get_prop (toJSON tj (SwapLayer n)) ''layer_number'' = Inr JUndefined \<and>
   deserializeBind ns dt (toJSON tj (SwapLayer n)) = Inr (Some (SwapLayer n)) \<and>
   (map_of fs ''type'' = Some (JStr BindType_SwitchLayer) \<and> map_of fs ''value'' = Some (JNum m) \<longrightarrow>
      deserializeBind ns dt (JObj fs) = Inr (Some (SwapLayer m))) \<and>
   deserializeBind ns dt (JObj [(''type'', JStr BindType_SwitchLayer), (''layer_number'', JNum m)]) =
     Inr None \<and>
   toJSON tj (AppOpen_Bind a) = JObj [(''type'', JStr BindType_AppOpen), (''app_name'', JStr a)] \<and>
   deserializeBind ns dt (toJSON tj (AppOpen_Bind a)) = Inr (Some (AppOpen_Bind a))"
  by (simp add: SwapLayer_fromJSON_def AppOpen_Bind_fromJSON_def)

theorem swaplayer_value_key_witness:
  "map_of [(''layer_number'', JNum (Num 7)), (''value'', JNum (Num 3)),
           (''type'', JStr BindType_SwitchLayer)]
     ''type'' = Some (JStr BindType_SwitchLayer) \<and>
   map_of [(''layer_number'', JNum (Num 7)), (''value'', JNum (Num 3)),
           (''type'', JStr BindType_SwitchLayer)]
     ''value'' = Some (JNum (Num 3)) \<and>
   deserializeBind number_to_string deserializeTrigger
     (JObj [(''layer_number'', JNum (Num 7)), (''value'', JNum (Num 3)),
            (''type'', JStr BindType_SwitchLayer)]) =
     Inr (Some (SwapLayer (Num 3)))"
  using swaplayer_value_key
    [where tj = trigger_toJSON and dt = deserializeTrigger and ns = number_to_string and
      n = "Num 0" and m = "Num 3" and a = "''x''" and
      fs = "[(''layer_number'', JNum (Num 7)), (''value'', JNum (Num 3)),
             (''type'', JStr BindType_SwitchLayer)]"]
  by simp

end
